theory Spec2Isabelle
  imports Main
begin

section \<open>The candidate portal chat client (static/js/chat.js)\<close>

text \<open>
  The client is one object, \<open>ChatApp\<close>, whose methods run as handlers of browser events:
  the identity provider's listener, the WebSocket callbacks, a timer, promise resolutions
  and the page's controls. Handlers run one at a time, so each is a function from the
  state before to the state after. The state holds the object's fields, the parts of the
  page the handlers write, and the browser objects the handlers create (sockets, timers,
  suspended asynchronous calls).

  Every element the constructor looks up by id is taken to exist in the page. The sidebar
  and information-panel texts (\<open>showPortal\<close>'s avatar and name, \<open>updateSidebar\<close>'s
  role and percentage, \<open>updateInfoPanel\<close>) and what \<open>applyLanguage\<close> writes to the
  elements marked for translation are markup only and have no field here; \<open>localStorage\<close>
  is read once, by the constructor.
\<close>

subsection \<open>Values\<close>

datatype js_error = SyntaxError | TypeError | InvalidStateError

text \<open>What a call did: it returned, or it threw after the writes made so far.\<close>

datatype 'a outcome = Returned 'a | Thrown js_error 'a

fun state_of :: "'a outcome \<Rightarrow> 'a" where
  "state_of (Returned s) = s"
| "state_of (Thrown e s) = s"

fun returned :: "'a outcome \<Rightarrow> bool" where
  "returned (Returned s) = True"
| "returned (Thrown e s) = False"

text \<open>JSON values, as \<open>JSON.parse\<close> produces them (numbers kept to the integers).\<close>

datatype json =
    JNull
  | JBool bool
  | JNum int
  | JStr string
  | JArr "json list"
  | JObj "(string \<times> json) list"

text \<open>
  \<open>event.data\<close> of a socket message, given by what \<open>JSON.parse\<close> makes of it: a
  \<open>SyntaxError\<close> or a value.
\<close>

datatype payload = Unparsable | Parsed json

fun JSON_parse :: "payload \<Rightarrow> js_error + json" where
  "JSON_parse Unparsable = Inl SyntaxError"
| "JSON_parse (Parsed v) = Inr v"

text \<open>
  Reading the property \<open>k\<close> of a parsed value, for the keys the handler reads (none of
  them is a member of a prototype): \<open>None\<close> is \<open>undefined\<close>. In an object literal with
  a repeated key the last one wins. Reading a property of \<open>null\<close> throws; the caller
  checks for it.
\<close>

fun get_prop :: "json \<Rightarrow> string \<Rightarrow> json option" where
  "get_prop (JObj kvs) k = map_of (rev kvs) k"
| "get_prop v k = None"

fun truthy :: "json option \<Rightarrow> bool" where
  "truthy None = False"
| "truthy (Some JNull) = False"
| "truthy (Some (JBool b)) = b"
| "truthy (Some (JNum n)) = (n \<noteq> 0)"
| "truthy (Some (JStr s)) = (s \<noteq> [])"
| "truthy (Some (JArr xs)) = True"
| "truthy (Some (JObj kvs)) = True"

text \<open>Outbound envelopes: the objects given to \<open>JSON.stringify\<close>.\<close>

datatype envelope =
    Auth string string
  | Message string
  | Set_language string
  | New_conversation

datatype ready_state = CONNECTING | OPEN | CLOSING | CLOSED

text \<open>
  A WebSocket: its ready state, what was sent on it, and the \<open>token\<close> its handlers
  closed over.
\<close>

record websocket =
  readyState :: ready_state
  sent :: "envelope list"
  token :: string

definition live :: "websocket \<Rightarrow> bool" where
  "live w = (readyState w \<noteq> CLOSED)"

text \<open>\<open>WebSocket.send\<close>: throws while connecting, discards once closing or closed.\<close>

definition ws_send :: "envelope \<Rightarrow> websocket \<Rightarrow> js_error + websocket" where
  "ws_send e w =
     (case readyState w of
        CONNECTING \<Rightarrow> Inl InvalidStateError
      | OPEN \<Rightarrow> Inr (w\<lparr>sent := sent w @ [e]\<rparr>)
      | CLOSING \<Rightarrow> Inr w
      | CLOSED \<Rightarrow> Inr w)"

text \<open>\<open>WebSocket.close\<close>: starts the closing handshake; the close event comes later.\<close>

definition ws_close :: "websocket \<Rightarrow> websocket" where
  "ws_close w =
     (case readyState w of
        CONNECTING \<Rightarrow> w\<lparr>readyState := CLOSING\<rparr>
      | OPEN \<Rightarrow> w\<lparr>readyState := CLOSING\<rparr>
      | CLOSING \<Rightarrow> w
      | CLOSED \<Rightarrow> w)"

subsection \<open>Tables\<close>

text \<open>The entries of \<open>i18n\<close> that the handlers below read.\<close>

record strings =
  typeMessage :: string
  connecting :: string
  emailNotRegistered :: string
  applyNow :: string

definition i18n_en :: strings where
  "i18n_en = \<lparr>typeMessage = ''Type your message...'', connecting = ''Connecting...'',
     emailNotRegistered =
       ''This email is not registered. Please complete the interpreter application form first.'',
     applyNow = ''Apply Now''\<rparr>"

definition i18n_es :: strings where
  "i18n_es = \<lparr>typeMessage = ''Escribe tu mensaje...'', connecting = ''Conectando...'',
     emailNotRegistered =
       ''Este correo no esta registrado. Completa el formulario de aplicacion primero.'',
     applyNow = ''Aplicar''\<rparr>"

text \<open>
  \<open>i18n\<close> is an object literal, so a key that names a member of \<open>Object.prototype\<close>
  reads that member: an object on which every entry reads \<open>undefined\<close>.
\<close>

definition Object_prototype_keys :: "string list" where
  "Object_prototype_keys =
     [''constructor'', ''__defineGetter__'', ''__defineSetter__'', ''hasOwnProperty'',
      ''__lookupGetter__'', ''__lookupSetter__'', ''isPrototypeOf'', ''propertyIsEnumerable'',
      ''toString'', ''valueOf'', ''__proto__'', ''toLocaleString'']"

definition undefined_strings :: strings where
  "undefined_strings = \<lparr>typeMessage = ''undefined'', connecting = ''undefined'',
     emailNotRegistered = ''undefined'', applyNow = ''undefined''\<rparr>"

text \<open>\<open>i18n[lang]\<close>: \<open>None\<close> is \<open>undefined\<close>, and reading an entry of it throws.\<close>

definition i18n :: "string \<Rightarrow> strings option" where
  "i18n lang =
     (if lang = ''en'' then Some i18n_en
      else if lang = ''es'' then Some i18n_es
      else if lang \<in> set Object_prototype_keys then Some undefined_strings
      else None)"

record stage =
  key :: string
  label :: string
  labelEs :: string

definition APPLICATION_STAGES :: "stage list" where
  "APPLICATION_STAGES =
     [\<lparr>key = ''Application Review'', label = ''Applied'', labelEs = ''Aplicado''\<rparr>,
      \<lparr>key = ''Candidate Interview'', label = ''Interview'', labelEs = ''Entrevista''\<rparr>,
      \<lparr>key = ''Candidate Language Assessment'', label = ''Assessment'',
        labelEs = ''Evaluacion''\<rparr>,
      \<lparr>key = ''Candidate ID/Background Verification'', label = ''Verification'',
        labelEs = ''Verificacion''\<rparr>,
      \<lparr>key = ''Contract & Payment Setup'', label = ''Contract'', labelEs = ''Contrato''\<rparr>,
      \<lparr>key = ''Training Required'', label = ''Training'', labelEs = ''Capacitacion''\<rparr>,
      \<lparr>key = ''Client Tool Orientation'', label = ''Orientation'',
        labelEs = ''Orientacion''\<rparr>,
      \<lparr>key = ''Interpreter Ready for Production'', label = ''Ready'', labelEs = ''Listo''\<rparr>]"

subsection \<open>The stage timeline\<close>

text \<open>\<open>Array.prototype.findIndex\<close>: the first index whose element passes, or \<open>-1\<close>.\<close>

fun findIndex :: "('a \<Rightarrow> bool) \<Rightarrow> 'a list \<Rightarrow> int" where
  "findIndex p [] = -1"
| "findIndex p (x # xs) =
     (if p x then 0 else (let i = findIndex p xs in if i < 0 then -1 else i + 1))"

text \<open>
  \<open>currentStage ? ... : -1\<close>: an absent stage and the empty string are both falsy.
\<close>

definition currentIndex :: "string option \<Rightarrow> int" where
  "currentIndex currentStage =
     (case currentStage of
        None \<Rightarrow> -1
      | Some st \<Rightarrow> if st = [] then -1 else findIndex (\<lambda>s. key s = st) APPLICATION_STAGES)"

record timeline_row =
  className :: string
  step_label :: string

definition timeline_row_of :: "string \<Rightarrow> int \<Rightarrow> nat \<times> stage \<Rightarrow> timeline_row" where
  "timeline_row_of lang cur p =
     (case p of (index, st) \<Rightarrow>
        \<lparr>className = ''timeline-row''
            @ (if int index < cur then '' completed'' else '''')
            @ (if int index = cur then '' active'' else ''''),
         step_label = (if lang = ''es'' then labelEs st else label st)\<rparr>)"

definition timeline_rows :: "string \<Rightarrow> string option \<Rightarrow> timeline_row list" where
  "timeline_rows lang currentStage =
     map (timeline_row_of lang (currentIndex currentStage))
       (enumerate 0 APPLICATION_STAGES)"

subsection \<open>Strings\<close>

text \<open>
  A \<open>char\<close> is one code unit below 256. \<open>String.prototype.trim\<close> removes white space
  and line terminators from both ends; below 256 these are tab, line feed, vertical tab,
  form feed, carriage return, space and the no-break space.
\<close>

definition is_whitespace :: "char \<Rightarrow> bool" where
  "is_whitespace c = (c \<in> set [CHR 0x09, CHR 0x0A, CHR 0x0B, CHR 0x0C, CHR 0x0D, CHR 0x20, CHR 0xA0])"

definition trim :: "string \<Rightarrow> string" where
  "trim v = rev (dropWhile is_whitespace (rev (dropWhile is_whitespace v)))"

text \<open>\<open>content.replace(/\n/g, "<br>")\<close>\<close>

definition replace_newlines :: "string \<Rightarrow> string" where
  "replace_newlines v = concat (map (\<lambda>c. if c = CHR 0x0A then ''<br>'' else [c]) v)"

subsection \<open>The state\<close>

datatype role = User | Assistant

text \<open>A row of the message log; its time stamp is not kept.\<close>

record chat_message =
  content :: string
  message_role :: role

text \<open>\<open>candidateData\<close>, by the field the timeline reads.\<close>

record candidate =
  stage_name :: "string option"

text \<open>The \<open>authErrorContainer\<close> element: its paragraph, its link text if any, its display.\<close>

record auth_error =
  errorMessage :: string
  applyLink :: "string option"
  errorDisplay :: string

type_synonym clerk_user = string

text \<open>
  First the fields of \<open>ChatApp\<close>, with \<open>socket\<close> an index into \<open>sockets\<close>; then the
  page (\<open>inputDisabled\<close> is the \<open>disabled\<close> of both the input and the send button, which
  are only written together); then the browser: whether \<open>window.Clerk\<close> is there, every
  WebSocket created so far, the delays of the pending timers in the order they were set,
  the number of \<open>connect\<close> calls suspended at \<open>await this.getSessionToken()\<close>, the
  number of \<open>loadCandidateData\<close> calls suspended at each of its three \<open>await\<close>s, and
  how often \<open>Clerk.signOut\<close> has been called.
\<close>

record app =
  socket :: "nat option"
  clerkUser :: "clerk_user option"
  candidateData :: "candidate option"
  language :: string
  isConnected :: bool
  isConnecting :: bool
  clerkMounted :: bool
  authHandled :: bool
  loginScreen :: string
  portalScreen :: string
  authErrorContainer :: "auth_error option"
  chatMessages :: "chat_message list"
  messageInput :: string
  inputDisabled :: bool
  placeholder :: string
  quickActions :: string
  typingIndicator :: bool
  verticalTimeline :: "timeline_row list"
  window_Clerk :: bool
  sockets :: "websocket list"
  timers :: "nat list"
  connects :: nat
  loads_token :: nat
  loads_fetch :: nat
  loads_signOut :: nat
  signOuts :: nat

text \<open>Running a second step only when the first returned.\<close>

fun and_then :: "'a outcome \<Rightarrow> ('a \<Rightarrow> 'a outcome) \<Rightarrow> 'a outcome" where
  "and_then (Returned s) f = f s"
| "and_then (Thrown e s) f = Thrown e s"

text \<open>\<open>if (!token)\<close>: \<open>null\<close> and the empty string are falsy.\<close>

fun falsy :: "string option \<Rightarrow> bool" where
  "falsy None = True"
| "falsy (Some v) = (v = [])"

text \<open>The string of a truthy value.\<close>

fun string_of :: "string option \<Rightarrow> string" where
  "string_of None = []"
| "string_of (Some v) = v"

subsection \<open>Page helpers\<close>

definition hideAuthError :: "app \<Rightarrow> app" where
  "hideAuthError s =
     s\<lparr>authErrorContainer :=
         map_option (\<lambda>el. el\<lparr>errorDisplay := ''none''\<rparr>) (authErrorContainer s)\<rparr>"

definition showSignIn :: "app \<Rightarrow> app" where
  "showSignIn s =
     (let s1 = hideAuthError (s\<lparr>loginScreen := ''flex'', portalScreen := ''none''\<rparr>)
      in if window_Clerk s1 \<and> \<not> clerkMounted s1 then s1\<lparr>clerkMounted := True\<rparr> else s1)"

text \<open>\<open>const strings = i18n[this.language] || i18n.en\<close>\<close>

definition showAuthError :: "string \<Rightarrow> bool \<Rightarrow> app \<Rightarrow> app" where
  "showAuthError message showApplyLink s =
     (let strs = (case i18n (language s) of Some t \<Rightarrow> t | None \<Rightarrow> i18n_en)
      in s\<lparr>authErrorContainer :=
             Some \<lparr>errorMessage = message,
                   applyLink = (if showApplyLink then Some (applyNow strs) else None),
                   errorDisplay = ''block''\<rparr>\<rparr>)"

definition showPortal :: "app \<Rightarrow> app" where
  "showPortal s = s\<lparr>loginScreen := ''none'', portalScreen := ''flex''\<rparr>"

definition renderVerticalTimeline :: "string option \<Rightarrow> app \<Rightarrow> app" where
  "renderVerticalTimeline currentStage s =
     s\<lparr>verticalTimeline := timeline_rows (language s) currentStage\<rparr>"

definition updateSidebar :: "app \<Rightarrow> app" where
  "updateSidebar s =
     (case candidateData s of
        None \<Rightarrow> s
      | Some c \<Rightarrow> renderVerticalTimeline (stage_name c) s)"

definition addMessage :: "string \<Rightarrow> role \<Rightarrow> app \<Rightarrow> app" where
  "addMessage c r s =
     s\<lparr>chatMessages := chatMessages s @ [\<lparr>content = replace_newlines c, message_role = r\<rparr>]\<rparr>"

definition showQuickActions :: "app \<Rightarrow> app" where
  "showQuickActions s = s\<lparr>quickActions := ''flex''\<rparr>"

definition hideQuickActions :: "app \<Rightarrow> app" where
  "hideQuickActions s = s\<lparr>quickActions := ''none''\<rparr>"

definition showTypingIndicator :: "app \<Rightarrow> app" where
  "showTypingIndicator s = s\<lparr>typingIndicator := True\<rparr>"

definition hideTypingIndicator :: "app \<Rightarrow> app" where
  "hideTypingIndicator s = s\<lparr>typingIndicator := False\<rparr>"

text \<open>
  \<open>i18n[this.language][...]\<close> has no fallback: with no table for the language the
  third line throws, after the two \<open>disabled\<close> writes.
\<close>

definition setInputEnabled :: "bool \<Rightarrow> app \<Rightarrow> app outcome" where
  "setInputEnabled enabled s =
     (let s1 = s\<lparr>inputDisabled := \<not> enabled\<rparr>
      in case i18n (language s1) of
           None \<Rightarrow> Thrown TypeError s1
         | Some t \<Rightarrow>
             Returned (s1\<lparr>placeholder := (if enabled then typeMessage t else connecting t)\<rparr>))"

text \<open>
  \<open>this.socket.send(...)\<close>: a \<open>TypeError\<close> on \<open>null\<close>, else what the socket does.
\<close>

definition socket_send :: "envelope \<Rightarrow> app \<Rightarrow> app outcome" where
  "socket_send e s =
     (case socket s of
        None \<Rightarrow> Thrown TypeError s
      | Some i \<Rightarrow>
          if i < length (sockets s) then
            (case ws_send e (sockets s ! i) of
               Inl err \<Rightarrow> Thrown err s
             | Inr w \<Rightarrow> Returned (s\<lparr>sockets := (sockets s)[i := w]\<rparr>))
          else Thrown TypeError s)"

subsection \<open>Connecting\<close>

text \<open>
  \<open>connect\<close> up to its \<open>await\<close>: the guard, the flag, and the call suspended while the
  token is fetched.
\<close>

definition connect :: "app \<Rightarrow> app" where
  "connect s =
     (if isConnecting s \<or> isConnected s then s
      else s\<lparr>isConnecting := True, connects := connects s + 1\<rparr>)"

text \<open>
  \<open>connect\<close> from its \<open>await\<close> on, given the token: without one it clears the flag and
  returns; with one it creates the WebSocket, stores it in \<open>this.socket\<close> and sets its
  four handlers.
\<close>

definition connect_resume :: "string option \<Rightarrow> app \<Rightarrow> app" where
  "connect_resume tok s =
     (if falsy tok then s\<lparr>isConnecting := False\<rparr>
      else s\<lparr>sockets :=
               sockets s @ [\<lparr>readyState = CONNECTING, sent = [], token = string_of tok\<rparr>],
             socket := Some (length (sockets s))\<rparr>)"

definition onopen :: "string \<Rightarrow> app \<Rightarrow> app outcome" where
  "onopen tok s =
     and_then (setInputEnabled True (s\<lparr>isConnected := True, isConnecting := False\<rparr>))
       (\<lambda>s1. socket_send (Auth tok (language s1)) s1)"

text \<open>
  The message handler. \<open>JSON.parse\<close> is not guarded; a parsed \<open>null\<close> throws at
  \<open>data.type\<close>; \<open>addMessage\<close> throws at \<open>content.replace\<close> unless the content is a
  string; \<open>window.Clerk?.signOut()\<close> is one call of the identity provider's sign-out.
\<close>

definition onmessage :: "payload \<Rightarrow> app \<Rightarrow> app outcome" where
  "onmessage p s =
     (case JSON_parse p of
        Inl e \<Rightarrow> Thrown e s
      | Inr data \<Rightarrow>
          if data = JNull then Thrown TypeError s
          else if get_prop data ''type'' = Some (JStr ''auth_success'') then
            Returned (showQuickActions s)
          else if get_prop data ''type'' = Some (JStr ''auth_failed'') then
            (if get_prop data ''reason'' = Some (JStr ''email_not_registered'') then
               (let s1 = (if window_Clerk s then s\<lparr>signOuts := signOuts s + 1\<rparr> else s);
                    s2 = showSignIn s1
                in case i18n (language s2) of
                     None \<Rightarrow> Thrown TypeError s2
                   | Some t \<Rightarrow> Returned (showAuthError (emailNotRegistered t) True s2))
             else Returned s)
          else if get_prop data ''type'' = Some (JStr ''message'') then
            (let s1 = hideTypingIndicator s
             in case get_prop data ''content'' of
                  Some (JStr c) \<Rightarrow> Returned (addMessage c Assistant s1)
                | _ \<Rightarrow> Thrown TypeError s1)
          else if get_prop data ''type'' = Some (JStr ''typing'')
                  \<and> truthy (get_prop data ''status'') then
            Returned (showTypingIndicator s)
          else Returned s)"

text \<open>The close handler sets a timer of 3000 ms after re-labelling the input.\<close>

definition onclose :: "app \<Rightarrow> app outcome" where
  "onclose s =
     and_then (setInputEnabled False (s\<lparr>isConnected := False, isConnecting := False\<rparr>))
       (\<lambda>s1. Returned (s1\<lparr>timers := timers s1 @ [3000]\<rparr>))"

text \<open>The timer's callback: \<open>if (this.clerkUser && !this.isConnected) this.connect()\<close>\<close>

definition reconnect :: "app \<Rightarrow> app" where
  "reconnect s = (if clerkUser s \<noteq> None \<and> \<not> isConnected s then connect s else s)"

definition onerror :: "app \<Rightarrow> app" where
  "onerror s = s\<lparr>isConnecting := False\<rparr>"

subsection \<open>Candidate data\<close>

text \<open>
  \<open>loadCandidateData\<close> has three \<open>await\<close>s inside one \<open>try\<close>: the token, the fetch (with
  the body of a 2xx answer), and \<open>Clerk.signOut()\<close> after a 403. Whatever is thrown inside
  is caught and logged, leaving the writes made so far.
\<close>

datatype body = BadJson | FalsyBody | CandidateBody candidate

datatype fetch_result = NetworkError | Response nat body

definition loadCandidateData :: "app \<Rightarrow> app" where
  "loadCandidateData s = s\<lparr>loads_token := loads_token s + 1\<rparr>"

definition load_token :: "string option \<Rightarrow> app \<Rightarrow> app" where
  "load_token tok s = (if falsy tok then s else s\<lparr>loads_fetch := loads_fetch s + 1\<rparr>)"

definition load_fetched :: "fetch_result \<Rightarrow> app \<Rightarrow> app" where
  "load_fetched r s =
     (case r of
        NetworkError \<Rightarrow> s
      | Response status b \<Rightarrow>
          if 200 \<le> status \<and> status \<le> 299 then
            (case b of
               BadJson \<Rightarrow> s
             | FalsyBody \<Rightarrow> s\<lparr>candidateData := None\<rparr>
             | CandidateBody c \<Rightarrow> updateSidebar (s\<lparr>candidateData := Some c\<rparr>))
          else if status = 403 then
            (if window_Clerk s
             then s\<lparr>signOuts := signOuts s + 1, loads_signOut := loads_signOut s + 1\<rparr>
             else s)
          else s)"

definition load_signedOut :: "bool \<Rightarrow> app \<Rightarrow> app" where
  "load_signedOut ok s =
     (if ok then
        (let s1 = showSignIn s
         in case i18n (language s1) of
              None \<Rightarrow> s1
            | Some t \<Rightarrow> showAuthError (emailNotRegistered t) True s1)
      else s)"

subsection \<open>Identity provider\<close>

definition onUserSignedIn :: "app \<Rightarrow> app" where
  "onUserSignedIn s =
     (let s1 = (if clerkMounted s \<and> window_Clerk s then s\<lparr>clerkMounted := False\<rparr> else s);
          s2 = showPortal (hideAuthError s1);
          s3 = (if \<not> isConnected s2 \<and> \<not> isConnecting s2 then connect s2 else s2)
      in loadCandidateData s3)"

definition onUserSignedOut :: "app \<Rightarrow> app" where
  "onUserSignedOut s =
     (let s1 = s\<lparr>clerkUser := None, authHandled := False,
                 isConnected := False, isConnecting := False\<rparr>;
          s2 = (case socket s1 of
                  None \<Rightarrow> s1
                | Some i \<Rightarrow>
                    s1\<lparr>sockets :=
                         (if i < length (sockets s1)
                          then (sockets s1)[i := ws_close (sockets s1 ! i)] else sockets s1),
                       socket := None\<rparr>)
      in showSignIn s2)"

text \<open>The callback given to \<open>Clerk.addListener\<close>, on \<open>resources.user\<close>.\<close>

definition listener :: "clerk_user option \<Rightarrow> app \<Rightarrow> app" where
  "listener user s =
     (if authHandled s then s
      else case user of
             Some u \<Rightarrow> onUserSignedIn (s\<lparr>authHandled := True, clerkUser := Some u\<rparr>)
           | None \<Rightarrow> onUserSignedOut s)"

text \<open>
  \<open>initClerk\<close>, once the wait for \<open>window.Clerk\<close> is over. \<open>emits\<close> says whether
  \<open>addListener\<close> calls the new listener at once, \<open>user\<close> is \<open>Clerk.user\<close>.
\<close>

definition initClerk :: "bool \<Rightarrow> clerk_user option \<Rightarrow> app \<Rightarrow> app" where
  "initClerk emits user s =
     (if \<not> window_Clerk s then showSignIn s
      else
        (let s1 = (if emits then listener user s else s)
         in case user of
              Some u \<Rightarrow> onUserSignedIn (s1\<lparr>authHandled := True, clerkUser := Some u\<rparr>)
            | None \<Rightarrow> showSignIn s1))"

definition init :: "bool \<Rightarrow> clerk_user option \<Rightarrow> app \<Rightarrow> app" where
  "init emits user s = initClerk emits user (renderVerticalTimeline None s)"

subsection \<open>The page's controls\<close>

text \<open>
  \<open>sendMessage(content = null)\<close>: the form's submit calls it with no content, a quick
  action with the text of its table.
\<close>

definition sendMessage :: "string option \<Rightarrow> app \<Rightarrow> app outcome" where
  "sendMessage c s =
     (let message = (if falsy c then trim (messageInput s) else string_of c)
      in if message = [] \<or> \<not> isConnected s then Returned s
         else and_then
                (socket_send (Message message) (addMessage message User (hideQuickActions s)))
                (\<lambda>s1. Returned (s1\<lparr>messageInput := []\<rparr>)))"

definition setLanguage :: "string \<Rightarrow> app \<Rightarrow> app outcome" where
  "setLanguage lang s =
     (let s1 = s\<lparr>language := lang\<rparr>;
          s2 = (case candidateData s1 of
                  None \<Rightarrow> s1
                | Some c \<Rightarrow> renderVerticalTimeline (stage_name c) s1)
      in if socket s2 \<noteq> None \<and> isConnected s2 then socket_send (Set_language lang) s2
         else Returned s2)"

definition newConversation :: "app \<Rightarrow> app outcome" where
  "newConversation s =
     (if socket s \<noteq> None \<and> isConnected s
      then socket_send New_conversation (showQuickActions (s\<lparr>chatMessages := []\<rparr>))
      else Returned s)"

definition logout :: "app \<Rightarrow> app" where
  "logout s = (if window_Clerk s then s\<lparr>signOuts := signOuts s + 1\<rparr> else s)"

subsection \<open>Events\<close>

text \<open>
  What the browser can deliver, and when. A socket opens once, out of \<open>CONNECTING\<close>;
  messages come on a socket that is open or closing; an error can come on any socket
  that has not closed; a socket closes once; a promise resolves once for each suspended
  call; a timer fires once, the oldest first (all have the same delay). An exception
  leaving a handler is reported by the browser and the state stays as the handler left it.
  \<open>connect\<close> has two callers, the sign-in handler and the timer's callback, so it is
  no event of its own.
\<close>

datatype event =
    ClerkEmits "clerk_user option"
  | TokenResolves "string option"
  | SocketOpens nat
  | SocketMessage nat payload
  | SocketErrors nat
  | SocketCloses nat
  | TimerFires
  | Sends "string option"
  | LanguageChosen string
  | NewConversationClicked
  | LogoutClicked
  | LoadTokenResolves "string option"
  | FetchResolves fetch_result
  | SignOutResolves bool

definition set_readyState :: "nat \<Rightarrow> ready_state \<Rightarrow> app \<Rightarrow> app" where
  "set_readyState i r s = s\<lparr>sockets := (sockets s)[i := (sockets s ! i)\<lparr>readyState := r\<rparr>]\<rparr>"

definition ready_of :: "app \<Rightarrow> nat \<Rightarrow> ready_state option" where
  "ready_of s i = (if i < length (sockets s) then Some (readyState (sockets s ! i)) else None)"

fun step :: "event \<Rightarrow> app \<Rightarrow> app option" where
  "step (ClerkEmits user) s = (if window_Clerk s then Some (listener user s) else None)"
| "step (TokenResolves tok) s =
     (if 0 < connects s then Some (connect_resume tok (s\<lparr>connects := connects s - 1\<rparr>))
      else None)"
| "step (SocketOpens i) s =
     (if ready_of s i = Some CONNECTING
      then Some (state_of (onopen (token (sockets s ! i)) (set_readyState i OPEN s)))
      else None)"
| "step (SocketMessage i p) s =
     (if ready_of s i = Some OPEN \<or> ready_of s i = Some CLOSING
      then Some (state_of (onmessage p s)) else None)"
| "step (SocketErrors i) s =
     (if ready_of s i \<noteq> None \<and> ready_of s i \<noteq> Some CLOSED then Some (onerror s) else None)"
| "step (SocketCloses i) s =
     (if ready_of s i \<noteq> None \<and> ready_of s i \<noteq> Some CLOSED
      then Some (state_of (onclose (set_readyState i CLOSED s))) else None)"
| "step TimerFires s =
     (case timers s of [] \<Rightarrow> None | t # ts \<Rightarrow> Some (reconnect (s\<lparr>timers := ts\<rparr>)))"
| "step (Sends c) s = Some (state_of (sendMessage c s))"
| "step (LanguageChosen lang) s = Some (state_of (setLanguage lang s))"
| "step NewConversationClicked s = Some (state_of (newConversation s))"
| "step LogoutClicked s = Some (logout s)"
| "step (LoadTokenResolves tok) s =
     (if 0 < loads_token s then Some (load_token tok (s\<lparr>loads_token := loads_token s - 1\<rparr>))
      else None)"
| "step (FetchResolves r) s =
     (if 0 < loads_fetch s then Some (load_fetched r (s\<lparr>loads_fetch := loads_fetch s - 1\<rparr>))
      else None)"
| "step (SignOutResolves ok) s =
     (if 0 < loads_signOut s
      then Some (load_signedOut ok (s\<lparr>loads_signOut := loads_signOut s - 1\<rparr>)) else None)"

text \<open>Running a list of events; \<open>None\<close> when one of them cannot happen.\<close>

fun run :: "event list \<Rightarrow> app \<Rightarrow> app option" where
  "run [] s = Some s"
| "run (e # es) s = (case step e s of None \<Rightarrow> None | Some s1 \<Rightarrow> run es s1)"

text \<open>
  The state the constructor leaves, before \<open>init\<close>: the fields as it writes them, nothing
  created in the browser yet, the page as it was loaded.
\<close>

definition fresh :: "app \<Rightarrow> bool" where
  "fresh s =
     (socket s = None \<and> clerkUser s = None \<and> candidateData s = None
      \<and> \<not> isConnected s \<and> \<not> isConnecting s \<and> \<not> clerkMounted s \<and> \<not> authHandled s
      \<and> sockets s = [] \<and> timers s = [] \<and> connects s = 0
      \<and> loads_token s = 0 \<and> loads_fetch s = 0 \<and> loads_signOut s = 0 \<and> signOuts s = 0)"

text \<open>
  The constructor on an empty page: \<open>stored\<close> is \<open>localStorage.getItem("chat_language")\<close>,
  \<open>clerk\<close> whether the identity provider's script has loaded.
\<close>

definition constructor :: "string option \<Rightarrow> bool \<Rightarrow> app" where
  "constructor stored clerk =
     \<lparr>socket = None, clerkUser = None, candidateData = None,
      language = (if falsy stored then ''en'' else string_of stored),
      isConnected = False, isConnecting = False, clerkMounted = False, authHandled = False,
      loginScreen = [], portalScreen = [], authErrorContainer = None, chatMessages = [],
      messageInput = [], inputDisabled = False, placeholder = [], quickActions = [],
      typingIndicator = False, verticalTimeline = [],
      window_Clerk = clerk, sockets = [], timers = [], connects = 0,
      loads_token = 0, loads_fetch = 0, loads_signOut = 0, signOuts = 0\<rparr>"

inductive reachable :: "app \<Rightarrow> bool" where
  reach_init: "fresh s \<Longrightarrow> reachable (init emits user s)"
| reach_step: "reachable s \<Longrightarrow> step e s = Some s' \<Longrightarrow> reachable s'"

subsection \<open>What is in flight\<close>

text \<open>
  A socket counts until its close event. A session has something in flight for each
  suspended \<open>connect\<close>, each such socket and each pending timer.
\<close>

definition live_count :: "app \<Rightarrow> nat" where
  "live_count s = length (filter live (sockets s))"

definition tokens :: "app \<Rightarrow> nat" where
  "tokens s = connects s + live_count s + length (timers s)"

text \<open>
  The invariant of the session: at most one thing in flight, none before a sign-in was
  handled, and the two flags not both set.
\<close>

definition settled :: "app \<Rightarrow> bool" where
  "settled s =
     (tokens s \<le> 1 \<and> (\<not> authHandled s \<longrightarrow> tokens s = 0)
      \<and> \<not> (isConnecting s \<and> isConnected s))"

text \<open>Two states that agree on what is in flight, on \<open>authHandled\<close> and on the flags.\<close>

definition same_session :: "app \<Rightarrow> app \<Rightarrow> bool" where
  "same_session s s' =
     (connects s' = connects s \<and> timers s' = timers s \<and> live_count s' = live_count s
      \<and> authHandled s' = authHandled s
      \<and> isConnected s' = isConnected s \<and> isConnecting s' = isConnecting s)"

text \<open>The two connection flags are not both set.\<close>

definition exclusive :: "app \<Rightarrow> bool" where
  "exclusive s = (\<not> (isConnecting s \<and> isConnected s))"

subsection \<open>A session\<close>

text \<open>The state after a list of events, staying at the first one that cannot happen.\<close>

fun after :: "event list \<Rightarrow> app \<Rightarrow> app" where
  "after [] s = s"
| "after (e # es) s = (case step e s of None \<Rightarrow> s | Some s1 \<Rightarrow> after es s1)"

text \<open>
  A page with the identity provider loaded and a user already signed in; then the token
  arrives and the socket opens, so the \<open>auth\<close> envelope is out and no answer is in yet;
  then the backend accepts.
\<close>

definition signed_in :: app where
  "signed_in = init True (Some ''user_1'') (constructor None True)"

definition handshake :: "event list" where
  "handshake = [TokenResolves (Some ''tok''), SocketOpens 0]"

definition authenticating :: app where
  "authenticating = after handshake signed_in"

definition accepted :: "event list" where
  "accepted = handshake @ [SocketMessage 0 (Parsed (JObj [(''type'', JStr ''auth_success'')]))]"

definition ready :: app where
  "ready = after accepted signed_in"



section \<open>Lemmas\<close>

subsection \<open>Lists, strings and the stage table\<close>

lemma length_filter_update:
  "i < length xs \<Longrightarrow>
   length (filter P (xs[i := y])) + (if P (xs ! i) then 1 else 0)
     = length (filter P xs) + (if P y then 1 else 0)"
proof (induction xs arbitrary: i)
  case Nil
  then show ?case by simp
next
  case (Cons x xs)
  show ?case
  proof (cases i)
    case 0
    then show ?thesis by simp
  next
    case (Suc j)
    with Cons.prems have "j < length xs" by simp
    from Cons.IH [OF this] Suc show ?thesis by simp
  qed
qed

lemma findIndex_none: "\<forall>x \<in> set xs. \<not> p x \<Longrightarrow> findIndex p xs = -1"
  by (induction xs) (auto simp: Let_def)

lemma findIndex_some:
  "\<exists>x \<in> set xs. p x \<Longrightarrow>
   0 \<le> findIndex p xs \<and> nat (findIndex p xs) < length xs \<and> p (xs ! nat (findIndex p xs))"
proof (induction xs)
  case Nil
  then show ?case by simp
next
  case (Cons x xs)
  show ?case
  proof (cases "p x")
    case True
    then show ?thesis by simp
  next
    case False
    with Cons.prems have "\<exists>x \<in> set xs. p x" by simp
    from Cons.IH [OF this] False show ?thesis by (simp add: Let_def nat_add_distrib)
  qed
qed

lemma trim_blank: "\<forall>c \<in> set v. is_whitespace c \<Longrightarrow> trim v = []"
proof -
  assume "\<forall>c \<in> set v. is_whitespace c"
  then have blank: "dropWhile is_whitespace v = []" by simp
  show ?thesis unfolding trim_def blank by simp
qed

subsection \<open>What the handlers leave alone\<close>

lemmas page_defs = hideAuthError_def showSignIn_def showAuthError_def showPortal_def
  renderVerticalTimeline_def updateSidebar_def addMessage_def showQuickActions_def
  hideQuickActions_def showTypingIndicator_def hideTypingIndicator_def

lemma live_ws_send: "ws_send e w = Inr w' \<Longrightarrow> live w' = live w"
  by (auto simp: ws_send_def live_def split: ready_state.splits)

lemma live_ws_close: "live (ws_close w) = live w"
  by (auto simp: ws_close_def live_def split: ready_state.splits)

lemma filter_live_update:
  "i < length ws \<Longrightarrow> live w = live (ws ! i)
   \<Longrightarrow> length (filter live (ws[i := w])) = length (filter live ws)"
  using length_filter_update [of i ws live w] by simp

lemma same_session_settled: "same_session s s' \<Longrightarrow> settled s \<Longrightarrow> settled s'"
  by (simp add: same_session_def tokens_def settled_def)

lemma same_session_refl: "same_session s s"
  by (simp add: same_session_def)

lemma same_session_trans: "same_session s t \<Longrightarrow> same_session t u \<Longrightarrow> same_session s u"
  by (simp add: same_session_def)

lemma same_session_showSignIn: "same_session s (showSignIn s)"
  by (simp add: same_session_def live_count_def showSignIn_def hideAuthError_def Let_def)

lemma same_session_socket_send: "same_session s (state_of (socket_send e s))"
  by (auto simp: same_session_def live_count_def socket_send_def filter_live_update live_ws_send
        split: option.splits sum.splits)

lemma same_session_then_send:
  "same_session s t \<Longrightarrow> same_session s (state_of (socket_send e t))"
  by (erule same_session_trans) (rule same_session_socket_send)

lemma same_session_setInputEnabled: "same_session s (state_of (setInputEnabled b s))"
  by (simp add: same_session_def live_count_def setInputEnabled_def Let_def split: option.splits)

lemma same_session_if:
  "same_session s (state_of a) \<Longrightarrow> same_session s (state_of b)
   \<Longrightarrow> same_session s (state_of (if c then a else b))"
  by simp

lemma same_session_auth_failed:
  "same_session s
     (state_of
        (let s1 = (if window_Clerk s then s\<lparr>signOuts := signOuts s + 1\<rparr> else s);
             s2 = showSignIn s1
         in case i18n (language s2) of
              None \<Rightarrow> Thrown TypeError s2
            | Some t \<Rightarrow> Returned (showAuthError (emailNotRegistered t) True s2)))"
  by (simp add: same_session_def live_count_def page_defs Let_def split: option.splits)

lemma same_session_message:
  "same_session s
     (state_of
        (let s1 = hideTypingIndicator s
         in case c of
              Some (JStr c) \<Rightarrow> Returned (addMessage c Assistant s1)
            | _ \<Rightarrow> Thrown TypeError s1))"
  by (simp add: same_session_def live_count_def page_defs Let_def
        split: option.splits json.splits)

lemma same_session_onmessage: "same_session s (state_of (onmessage p s))"
proof (cases p)
  case Unparsable
  then show ?thesis by (simp add: onmessage_def same_session_refl)
next
  case (Parsed v)
  have quick: "same_session s (state_of (Returned (showQuickActions s)))"
    by (simp add: same_session_def live_count_def page_defs)
  have typing: "same_session s (state_of (Returned (showTypingIndicator s)))"
    by (simp add: same_session_def live_count_def page_defs)
  have same: "same_session s (state_of (Returned s))" "same_session s (state_of (Thrown e s))"
    for e
    by (simp_all add: same_session_refl)
  show ?thesis
    unfolding onmessage_def Parsed JSON_parse.simps sum.case
    by (intro same_session_if same_session_auth_failed same_session_message quick typing same)
qed

lemma same_session_sendMessage: "same_session s (state_of (sendMessage c s))"
proof -
  have a: "same_session s (addMessage m User (hideQuickActions s))" for m
    by (simp add: same_session_def live_count_def page_defs)
  have b: "same_session s
             (state_of (and_then (socket_send e t) (\<lambda>s1. Returned (s1\<lparr>messageInput := []\<rparr>))))"
    if "same_session s t" for e t
    using that same_session_socket_send [of t e]
    by (cases "socket_send e t") (simp_all add: same_session_def live_count_def)
  show ?thesis
    by (simp add: sendMessage_def Let_def same_session_refl a b)
qed

lemma same_session_setLanguage: "same_session s (state_of (setLanguage lang s))"
proof -
  have a: "same_session s (s\<lparr>language := lang\<rparr>)"
    by (simp add: same_session_def live_count_def)
  have b: "same_session s (renderVerticalTimeline st (s\<lparr>language := lang\<rparr>))" for st
    by (simp add: same_session_def live_count_def page_defs)
  show ?thesis
    by (cases "candidateData s")
       (simp_all add: setLanguage_def Let_def a b same_session_then_send)
qed

lemma same_session_newConversation: "same_session s (state_of (newConversation s))"
proof -
  have a: "same_session s (showQuickActions (s\<lparr>chatMessages := []\<rparr>))"
    by (simp add: same_session_def live_count_def page_defs)
  show ?thesis
    by (simp add: newConversation_def same_session_refl a same_session_then_send)
qed

lemma same_session_logout: "same_session s (logout s)"
  by (simp add: same_session_def live_count_def logout_def)

lemma same_session_load_token: "same_session s (load_token tok (s\<lparr>loads_token := n\<rparr>))"
  by (simp add: same_session_def live_count_def load_token_def)

lemma same_session_load_fetched: "same_session s (load_fetched r (s\<lparr>loads_fetch := n\<rparr>))"
  by (simp add: same_session_def live_count_def load_fetched_def page_defs
        split: fetch_result.splits body.splits)

lemma same_session_load_signedOut:
  "same_session s (load_signedOut ok (s\<lparr>loads_signOut := n\<rparr>))"
  by (simp add: same_session_def live_count_def load_signedOut_def page_defs Let_def
        split: option.splits)

subsection \<open>The handlers that change the session\<close>

lemma ready_of_Some:
  "ready_of s i = Some r \<longleftrightarrow> i < length (sockets s) \<and> readyState (sockets s ! i) = r"
  by (auto simp: ready_of_def)

lemma ready_of_live:
  "ready_of s i \<noteq> None \<Longrightarrow> ready_of s i \<noteq> Some CLOSED
   \<Longrightarrow> i < length (sockets s) \<and> live (sockets s ! i)"
  by (auto simp: ready_of_def live_def split: if_splits)

lemma live_count_set_readyState:
  "i < length (sockets s) \<Longrightarrow>
   live_count (set_readyState i r s) + (if live (sockets s ! i) then 1 else 0)
     = live_count s + (if r \<noteq> CLOSED then 1 else 0)"
  using length_filter_update [of i "sockets s" live "(sockets s ! i)\<lparr>readyState := r\<rparr>"]
  by (simp add: live_count_def set_readyState_def live_def)

lemma set_readyState_others:
  "connects (set_readyState i r s) = connects s"
  "timers (set_readyState i r s) = timers s"
  "authHandled (set_readyState i r s) = authHandled s"
  "isConnected (set_readyState i r s) = isConnected s"
  "isConnecting (set_readyState i r s) = isConnecting s"
  "clerkUser (set_readyState i r s) = clerkUser s"
  "language (set_readyState i r s) = language s"
  by (simp_all add: set_readyState_def)

lemma onopen_session:
  "same_session (s\<lparr>isConnected := True, isConnecting := False\<rparr>) (state_of (onopen tok s))"
proof -
  let ?s1 = "s\<lparr>isConnected := True, isConnecting := False\<rparr>"
  have "same_session ?s1 (state_of (setInputEnabled True ?s1))"
    by (rule same_session_setInputEnabled)
  then show ?thesis
    by (cases "setInputEnabled True ?s1") (simp_all add: onopen_def same_session_then_send)
qed

lemma settled_onopen: "settled s \<Longrightarrow> settled (state_of (onopen tok s))"
proof -
  assume q: "settled s"
  let ?s1 = "s\<lparr>isConnected := True, isConnecting := False\<rparr>"
  have "settled ?s1"
    using q by (simp add: settled_def tokens_def live_count_def)
  with onopen_session [of s tok] show ?thesis by (rule same_session_settled)
qed

lemma settled_onerror: "settled s \<Longrightarrow> settled (onerror s)"
  by (simp add: settled_def tokens_def live_count_def onerror_def)

lemma onclose_session:
  "tokens (state_of (onclose s)) \<le> tokens s + 1"
  "authHandled (state_of (onclose s)) = authHandled s"
  "\<not> isConnected (state_of (onclose s))"
  "\<not> isConnecting (state_of (onclose s))"
  "clerkUser (state_of (onclose s)) = clerkUser s"
  "connects (state_of (onclose s)) = connects s"
  by (simp_all add: onclose_def setInputEnabled_def Let_def tokens_def live_count_def
        split: option.splits)


lemma connect_session:
  "tokens (connect s) \<le> tokens s + 1"
  "authHandled (connect s) = authHandled s"
  "\<not> (isConnecting s \<and> isConnected s) \<Longrightarrow> \<not> (isConnecting (connect s) \<and> isConnected (connect s))"
  by (simp_all add: tokens_def live_count_def connect_def)

lemma connect_resume_session:
  "0 < connects s \<Longrightarrow> tokens (connect_resume tok (s\<lparr>connects := connects s - 1\<rparr>)) \<le> tokens s"
  "authHandled (connect_resume tok (s\<lparr>connects := n\<rparr>)) = authHandled s"
  "isConnected (connect_resume tok (s\<lparr>connects := n\<rparr>)) = isConnected s"
  "isConnecting (connect_resume tok (s\<lparr>connects := n\<rparr>)) \<Longrightarrow> isConnecting s"
  by (simp_all add: tokens_def live_count_def connect_resume_def live_def split: if_splits)

lemma reconnect_session:
  "tokens (reconnect (s\<lparr>timers := ts\<rparr>)) \<le> connects s + live_count s + length ts + 1"
  "authHandled (reconnect (s\<lparr>timers := ts\<rparr>)) = authHandled s"
  "\<not> (isConnecting s \<and> isConnected s) \<Longrightarrow>
   \<not> (isConnecting (reconnect (s\<lparr>timers := ts\<rparr>)) \<and> isConnected (reconnect (s\<lparr>timers := ts\<rparr>)))"
  by (simp_all add: reconnect_def connect_def tokens_def live_count_def)

lemma settled_onUserSignedIn:
  "tokens s = 0 \<Longrightarrow> authHandled s \<Longrightarrow> \<not> (isConnecting s \<and> isConnected s)
   \<Longrightarrow> settled (onUserSignedIn s)"
  by (auto simp: onUserSignedIn_def settled_def tokens_def live_count_def connect_def page_defs
        loadCandidateData_def Let_def)

lemma onUserSignedIn_again:
  "isConnecting t \<Longrightarrow> authHandled t
   \<Longrightarrow> same_session t (onUserSignedIn (t\<lparr>authHandled := True, clerkUser := u\<rparr>))"
  by (simp add: same_session_def live_count_def onUserSignedIn_def page_defs
        loadCandidateData_def Let_def)

lemma onUserSignedOut_session:
  "connects (onUserSignedOut s) = connects s"
  "timers (onUserSignedOut s) = timers s"
  "live_count (onUserSignedOut s) = live_count s"
  "\<not> authHandled (onUserSignedOut s)"
  "\<not> isConnected (onUserSignedOut s)"
  "\<not> isConnecting (onUserSignedOut s)"
  by (simp_all add: onUserSignedOut_def live_count_def page_defs Let_def filter_live_update
        live_ws_close split: option.splits)

lemma settled_onUserSignedOut: "tokens s = 0 \<Longrightarrow> settled (onUserSignedOut s)"
  by (simp add: settled_def tokens_def onUserSignedOut_session)

lemma settled_listener: "settled s \<Longrightarrow> settled (listener user s)"
proof (cases "authHandled s")
  case True
  assume "settled s"
  with True show ?thesis by (simp add: listener_def)
next
  case False
  assume q: "settled s"
  with False have zero: "tokens s = 0" by (simp add: settled_def)
  show ?thesis
  proof (cases user)
    case None
    with False zero show ?thesis by (simp add: listener_def settled_onUserSignedOut)
  next
    case (Some u)
    let ?t = "s\<lparr>authHandled := True, clerkUser := Some u\<rparr>"
    have "tokens ?t = 0" "authHandled ?t" "\<not> (isConnecting ?t \<and> isConnected ?t)"
      using zero q by (simp_all add: tokens_def live_count_def settled_def)
    then have "settled (onUserSignedIn ?t)" by (rule settled_onUserSignedIn)
    with False Some show ?thesis by (simp add: listener_def)
  qed
qed

subsection \<open>The invariant\<close>

lemma settled_step: "settled s \<Longrightarrow> step e s = Some s' \<Longrightarrow> settled s'"
proof (cases e)
  case (ClerkEmits user)
  assume "settled s" "step e s = Some s'"
  with ClerkEmits show ?thesis by (auto simp: settled_listener split: if_splits)
next
  case (TokenResolves tok)
  assume q: "settled s" and st: "step e s = Some s'"
  from st TokenResolves have c: "0 < connects s"
    and s': "s' = connect_resume tok (s\<lparr>connects := connects s - 1\<rparr>)"
    by (auto split: if_splits)
  have "tokens s' \<le> tokens s" unfolding s' using c by (rule connect_resume_session)
  moreover have "authHandled s' = authHandled s" "isConnected s' = isConnected s"
    unfolding s' by (rule connect_resume_session)+
  moreover have "isConnecting s' \<Longrightarrow> isConnecting s"
    unfolding s' by (rule connect_resume_session)
  moreover from c have "0 < tokens s" by (simp add: tokens_def)
  ultimately show ?thesis using q by (auto simp: settled_def)
next
  case (SocketOpens i)
  assume q: "settled s" and st: "step e s = Some s'"
  from st SocketOpens have r: "ready_of s i = Some CONNECTING"
    and s': "s' = state_of (onopen (token (sockets s ! i)) (set_readyState i OPEN s))"
    by (auto split: if_splits)
  from r have i: "i < length (sockets s)" and l: "live (sockets s ! i)"
    by (simp_all add: ready_of_Some live_def)
  have "same_session s (set_readyState i OPEN s)"
    using live_count_set_readyState [OF i, of OPEN] l
    by (simp add: same_session_def set_readyState_others)
  then have "settled (set_readyState i OPEN s)" using q by (rule same_session_settled)
  then show ?thesis unfolding s' by (rule settled_onopen)
next
  case (SocketMessage i p)
  assume q: "settled s" and st: "step e s = Some s'"
  from st SocketMessage have "s' = state_of (onmessage p s)" by (auto split: if_splits)
  then have "same_session s s'" by (simp add: same_session_onmessage)
  then show ?thesis using q by (rule same_session_settled)
next
  case (SocketErrors i)
  assume q: "settled s" and st: "step e s = Some s'"
  from st SocketErrors have "s' = onerror s" by (auto split: if_splits)
  with q show ?thesis by (simp add: settled_onerror)
next
  case (SocketCloses i)
  assume q: "settled s" and st: "step e s = Some s'"
  from st SocketCloses have r: "ready_of s i \<noteq> None" "ready_of s i \<noteq> Some CLOSED"
    and s': "s' = state_of (onclose (set_readyState i CLOSED s))"
    by (auto split: if_splits)
  from r have i: "i < length (sockets s)" and l: "live (sockets s ! i)"
    using ready_of_live by blast+
  let ?c = "set_readyState i CLOSED s"
  have "live_count ?c + 1 = live_count s"
    using live_count_set_readyState [OF i, of CLOSED] l by simp
  then have c: "tokens ?c + 1 = tokens s"
    by (simp add: tokens_def set_readyState_others)
  have "tokens s' \<le> tokens ?c + 1" "authHandled s' = authHandled ?c"
    "\<not> isConnected s'" "\<not> isConnecting s'"
    unfolding s' by (rule onclose_session)+
  with c q show ?thesis by (simp add: settled_def set_readyState_others)
next
  case TimerFires
  assume q: "settled s" and st: "step e s = Some s'"
  from st TimerFires obtain t ts where ts: "timers s = t # ts"
    and s': "s' = reconnect (s\<lparr>timers := ts\<rparr>)"
    by (auto split: list.splits)
  have "tokens s' \<le> connects s + live_count s + length ts + 1" "authHandled s' = authHandled s"
    unfolding s' by (rule reconnect_session)+
  moreover have "tokens s = connects s + live_count s + length ts + 1"
    using ts by (simp add: tokens_def)
  moreover have "\<not> (isConnecting s' \<and> isConnected s')"
    unfolding s' using q by (intro reconnect_session) (simp add: settled_def)
  ultimately show ?thesis using q by (simp add: settled_def)
next
  case (Sends c)
  assume q: "settled s" and st: "step e s = Some s'"
  from st Sends have "same_session s s'" by (auto simp: same_session_sendMessage)
  then show ?thesis using q by (rule same_session_settled)
next
  case (LanguageChosen lang)
  assume q: "settled s" and st: "step e s = Some s'"
  from st LanguageChosen have "same_session s s'" by (auto simp: same_session_setLanguage)
  then show ?thesis using q by (rule same_session_settled)
next
  case NewConversationClicked
  assume q: "settled s" and st: "step e s = Some s'"
  from st NewConversationClicked have "same_session s s'"
    by (auto simp: same_session_newConversation)
  then show ?thesis using q by (rule same_session_settled)
next
  case LogoutClicked
  assume q: "settled s" and st: "step e s = Some s'"
  from st LogoutClicked have "same_session s s'" by (auto simp: same_session_logout)
  then show ?thesis using q by (rule same_session_settled)
next
  case (LoadTokenResolves tok)
  assume q: "settled s" and st: "step e s = Some s'"
  from st LoadTokenResolves have "same_session s s'"
    by (auto simp: same_session_load_token split: if_splits)
  then show ?thesis using q by (rule same_session_settled)
next
  case (FetchResolves r)
  assume q: "settled s" and st: "step e s = Some s'"
  from st FetchResolves have "same_session s s'"
    by (auto simp: same_session_load_fetched split: if_splits)
  then show ?thesis using q by (rule same_session_settled)
next
  case (SignOutResolves ok)
  assume q: "settled s" and st: "step e s = Some s'"
  from st SignOutResolves have "same_session s s'"
    by (auto simp: same_session_load_signedOut split: if_splits)
  then show ?thesis using q by (rule same_session_settled)
qed

lemma settled_init: "fresh s \<Longrightarrow> settled (init emits user s)"
proof -
  assume f: "fresh s"
  let ?r = "renderVerticalTimeline None s"
  have z: "tokens ?r = 0" and na: "\<not> authHandled ?r"
    and fl: "\<not> isConnecting ?r" "\<not> isConnected ?r"
    using f by (simp_all add: fresh_def tokens_def live_count_def page_defs)
  then have q: "settled ?r" by (simp add: settled_def)
  show ?thesis
  proof (cases "window_Clerk ?r")
    case False
    then show ?thesis
      using q same_session_showSignIn [of ?r]
      by (simp add: init_def initClerk_def same_session_settled)
  next
    case True
    show ?thesis
    proof (cases user)
      case None
      have "settled (if emits then listener None ?r else ?r)"
        using q by (simp add: settled_listener)
      then have "settled (showSignIn (if emits then listener None ?r else ?r))"
        using same_session_showSignIn same_session_settled by blast
      with True None show ?thesis by (simp add: init_def initClerk_def Let_def)
    next
      case (Some u)
      show ?thesis
      proof (cases emits)
        case False
        let ?t = "?r\<lparr>authHandled := True, clerkUser := Some u\<rparr>"
        have "tokens ?t = 0" "authHandled ?t" "\<not> (isConnecting ?t \<and> isConnected ?t)"
          using z fl by (simp_all add: tokens_def live_count_def)
        then have "settled (onUserSignedIn ?t)" by (rule settled_onUserSignedIn)
        with True Some False show ?thesis by (simp add: init_def initClerk_def)
      next
        case emits: True
        let ?l = "listener (Some u) ?r"
        have ql: "settled ?l" using q by (rule settled_listener)
        have ic: "isConnecting ?l" and ah: "authHandled ?l"
          using na f
          by (simp_all add: listener_def onUserSignedIn_def connect_def page_defs
                loadCandidateData_def Let_def fresh_def)
        have "same_session ?l (onUserSignedIn (?l\<lparr>authHandled := True, clerkUser := Some u\<rparr>))"
          using ic ah by (rule onUserSignedIn_again)
        then have "settled (onUserSignedIn (?l\<lparr>authHandled := True, clerkUser := Some u\<rparr>))"
          using ql by (rule same_session_settled)
        with True Some emits show ?thesis by (simp add: init_def initClerk_def)
      qed
    qed
  qed
qed

lemma reachable_settled: "reachable s \<Longrightarrow> settled s"
  by (induction rule: reachable.induct) (auto intro: settled_init settled_step)

lemma reachable_run: "reachable s \<Longrightarrow> run es s = Some s' \<Longrightarrow> reachable s'"
proof (induction es arbitrary: s)
  case Nil
  then show ?case by simp
next
  case (Cons e es)
  from Cons.prems(2) obtain s1 where s1: "step e s = Some s1" and rest: "run es s1 = Some s'"
    by (auto split: option.splits)
  from Cons.prems(1) s1 have "reachable s1" by (rule reach_step)
  then show ?case using rest by (rule Cons.IH)
qed

lemma after_run: "run es s = Some s' \<Longrightarrow> after es s = s'"
  by (induction es arbitrary: s) (auto split: option.splits)

lemma reachable_after: "reachable s \<Longrightarrow> run es s \<noteq> None \<Longrightarrow> reachable (after es s)"
  using reachable_run after_run by fastforce

lemma reachable_signed_in: "reachable signed_in"
  unfolding signed_in_def by (rule reach_init) (simp add: fresh_def constructor_def)

lemma run_handshake: "run handshake signed_in \<noteq> None"
  by code_simp


lemma reachable_authenticating: "reachable authenticating"
  unfolding authenticating_def using reachable_signed_in run_handshake by (rule reachable_after)


subsection \<open>The flags alone\<close>

text \<open>
  That the flags are not both set is kept by every handler from any state, whatever
  else is going on.
\<close>

lemma same_session_exclusive: "same_session s s' \<Longrightarrow> exclusive s \<Longrightarrow> exclusive s'"
  by (simp add: same_session_def exclusive_def)

lemma exclusive_onUserSignedIn: "exclusive s \<Longrightarrow> exclusive (onUserSignedIn s)"
  by (auto simp: exclusive_def onUserSignedIn_def connect_def page_defs loadCandidateData_def
        Let_def)

lemma exclusive_listener: "exclusive s \<Longrightarrow> exclusive (listener user s)"
proof (cases "authHandled s")
  case True
  assume "exclusive s"
  with True show ?thesis by (simp add: listener_def)
next
  case False
  assume x: "exclusive s"
  show ?thesis
  proof (cases user)
    case None
    with False show ?thesis by (simp add: listener_def exclusive_def onUserSignedOut_session)
  next
    case (Some u)
    from x have "exclusive (s\<lparr>authHandled := True, clerkUser := Some u\<rparr>)"
      by (simp add: exclusive_def)
    then have "exclusive (onUserSignedIn (s\<lparr>authHandled := True, clerkUser := Some u\<rparr>))"
      by (rule exclusive_onUserSignedIn)
    with False Some show ?thesis by (simp add: listener_def)
  qed
qed

lemma exclusive_step: "exclusive s \<Longrightarrow> step e s = Some s' \<Longrightarrow> exclusive s'"
proof (cases e)
  case (ClerkEmits user)
  assume "exclusive s" "step e s = Some s'"
  with ClerkEmits show ?thesis by (auto simp: exclusive_listener split: if_splits)
next
  case (TokenResolves tok)
  assume x: "exclusive s" and st: "step e s = Some s'"
  from st TokenResolves have s': "s' = connect_resume tok (s\<lparr>connects := connects s - 1\<rparr>)"
    by (auto split: if_splits)
  have "isConnected s' = isConnected s"
    unfolding s' by (rule connect_resume_session)
  moreover have "isConnecting s' \<Longrightarrow> isConnecting s"
    unfolding s' by (rule connect_resume_session)
  ultimately show ?thesis using x by (auto simp: exclusive_def)
next
  case (SocketOpens i)
  assume st: "step e s = Some s'"
  from st SocketOpens
  have s': "s' = state_of (onopen (token (sockets s ! i)) (set_readyState i OPEN s))"
    by (auto split: if_splits)
  have "exclusive ((set_readyState i OPEN s)\<lparr>isConnected := True, isConnecting := False\<rparr>)"
    by (simp add: exclusive_def)
  with onopen_session show ?thesis unfolding s' by (rule same_session_exclusive)
next
  case (SocketMessage i p)
  assume x: "exclusive s" and st: "step e s = Some s'"
  from st SocketMessage have "s' = state_of (onmessage p s)" by (auto split: if_splits)
  then have "same_session s s'" by (simp add: same_session_onmessage)
  then show ?thesis using x by (rule same_session_exclusive)
next
  case (SocketErrors i)
  assume x: "exclusive s" and st: "step e s = Some s'"
  from st SocketErrors have "s' = onerror s" by (auto split: if_splits)
  then show ?thesis by (simp add: exclusive_def onerror_def)
next
  case (SocketCloses i)
  assume st: "step e s = Some s'"
  from st SocketCloses have s': "s' = state_of (onclose (set_readyState i CLOSED s))"
    by (auto split: if_splits)
  show ?thesis unfolding s' exclusive_def by (simp add: onclose_session)
next
  case TimerFires
  assume x: "exclusive s" and st: "step e s = Some s'"
  from st TimerFires obtain t ts where "timers s = t # ts"
    and s': "s' = reconnect (s\<lparr>timers := ts\<rparr>)"
    by (auto split: list.splits)
  from x show ?thesis unfolding s' exclusive_def by (rule reconnect_session)
next
  case (Sends c)
  assume x: "exclusive s" and st: "step e s = Some s'"
  from st Sends have "same_session s s'" by (auto simp: same_session_sendMessage)
  then show ?thesis using x by (rule same_session_exclusive)
next
  case (LanguageChosen lang)
  assume x: "exclusive s" and st: "step e s = Some s'"
  from st LanguageChosen have "same_session s s'" by (auto simp: same_session_setLanguage)
  then show ?thesis using x by (rule same_session_exclusive)
next
  case NewConversationClicked
  assume x: "exclusive s" and st: "step e s = Some s'"
  from st NewConversationClicked have "same_session s s'"
    by (auto simp: same_session_newConversation)
  then show ?thesis using x by (rule same_session_exclusive)
next
  case LogoutClicked
  assume x: "exclusive s" and st: "step e s = Some s'"
  from st LogoutClicked have "same_session s s'" by (auto simp: same_session_logout)
  then show ?thesis using x by (rule same_session_exclusive)
next
  case (LoadTokenResolves tok)
  assume x: "exclusive s" and st: "step e s = Some s'"
  from st LoadTokenResolves have "same_session s s'"
    by (auto simp: same_session_load_token split: if_splits)
  then show ?thesis using x by (rule same_session_exclusive)
next
  case (FetchResolves r)
  assume x: "exclusive s" and st: "step e s = Some s'"
  from st FetchResolves have "same_session s s'"
    by (auto simp: same_session_load_fetched split: if_splits)
  then show ?thesis using x by (rule same_session_exclusive)
next
  case (SignOutResolves ok)
  assume x: "exclusive s" and st: "step e s = Some s'"
  from st SignOutResolves have "same_session s s'"
    by (auto simp: same_session_load_signedOut split: if_splits)
  then show ?thesis using x by (rule same_session_exclusive)
qed

section \<open>The specification's claims\<close>




text \<open>
  C2. A sign-out reported by the identity provider after a sign-in should close the
  connection and reset the session. The listener returns at once while \<open>authHandled\<close>
  is set, and a handled sign-in sets it: in the ready session the event changes nothing,
  the user stays stored, the flag stays set and the socket stays open.
  \<open>onUserSignedOut\<close>, which is not reached, would have cleared the user, closed the
  socket and dropped it.
\<close>

theorem sign_out_after_sign_in_ignored:
  "run accepted signed_in \<noteq> None
   \<and> clerkUser ready = Some ''user_1'' \<and> isConnected ready
   \<and> socket ready = Some 0 \<and> ready_of ready 0 = Some OPEN
   \<and> step (ClerkEmits None) ready = Some ready
   \<and> clerkUser (onUserSignedOut ready) = None
   \<and> socket (onUserSignedOut ready) = None
   \<and> ready_of (onUserSignedOut ready) 0 = Some CLOSING"
  by code_simp







text \<open>
  C5, as the code has it. On a payload that \<open>JSON.parse\<close> rejects the message handler
  ends with the \<open>SyntaxError\<close>, before any write: nothing is classified or logged by
  the handler, the state is the same and the socket stays open.
\<close>

theorem malformed_payload:
  "onmessage Unparsable s = Thrown SyntaxError s
   \<and> (ready_of s i = Some OPEN \<longrightarrow> step (SocketMessage i Unparsable) s = Some s)"
  by (simp add: onmessage_def)

theorem malformed_payload_witness:
  "ready_of ready 0 = Some OPEN \<and> step (SocketMessage 0 Unparsable) ready = Some ready"
proof -
  have "ready_of ready 0 = Some OPEN" by code_simp
  with malformed_payload [of ready 0] show ?thesis by simp
qed

text \<open>The claim as written fails: the handler does not return.\<close>

theorem malformed_payload_throws:
  "\<not> returned (onmessage Unparsable ready)"
  by code_simp

text \<open>
  C6. In every reachable state at most one connection is in the making or in use: the
  suspended \<open>connect\<close> calls and the sockets that have not closed are together at most
  one. A \<open>connect\<close> called while either flag is set returns the state unchanged: it
  suspends nothing and creates no socket.
\<close>

theorem single_connection:
  "reachable s \<Longrightarrow>
   connects s + live_count s \<le> 1
   \<and> (isConnecting s \<or> isConnected s \<longrightarrow> connect s = s)"
proof -
  assume "reachable s"
  then have "settled s" by (rule reachable_settled)
  then have "connects s + live_count s \<le> 1" by (simp add: settled_def tokens_def)
  then show ?thesis by (simp add: connect_def)
qed

theorem single_connection_witness:
  "isConnected authenticating \<and> live_count authenticating = 1
   \<and> connect authenticating = authenticating
   \<and> isConnecting signed_in \<and> connects signed_in = 1 \<and> connect signed_in = signed_in"
proof -
  have "isConnected authenticating" "live_count authenticating = 1"
    "isConnecting signed_in" "connects signed_in = 1" by code_simp+
  with single_connection [OF reachable_authenticating] single_connection [OF reachable_signed_in]
  show ?thesis by simp
qed

text \<open>
  C7. If the token provider returns no token, \<open>connect\<close> opens no connection, the
  session stays unauthenticated and the call returns without an error: a \<open>connect\<close>
  that passed its guard and then gets a falsy token leaves the very state it started
  from; and whenever a suspended \<open>connect\<close> resumes with a falsy token it creates no
  socket, leaves \<open>this.socket\<close>, the timers and \<open>isConnected\<close> alone and clears
  \<open>isConnecting\<close>.
\<close>

theorem connect_without_token:
  "falsy tok \<Longrightarrow>
   (\<not> isConnecting s \<and> \<not> isConnected s \<longrightarrow> step (TokenResolves tok) (connect s) = Some s)
   \<and> (0 < connects s \<longrightarrow>
        (\<exists>s'. step (TokenResolves tok) s = Some s' \<and> sockets s' = sockets s
              \<and> socket s' = socket s \<and> \<not> isConnecting s' \<and> isConnected s' = isConnected s
              \<and> timers s' = timers s))"
  by (simp add: connect_def connect_resume_def)

theorem connect_without_token_witness:
  "falsy None \<and> \<not> isConnecting (constructor None True) \<and> \<not> isConnected (constructor None True)
   \<and> step (TokenResolves None) (connect (constructor None True)) = Some (constructor None True)
   \<and> sockets (constructor None True) = [] \<and> socket (constructor None True) = None"
  using connect_without_token [of None "constructor None True"]
  by (simp add: constructor_def)

text \<open>
  C8. The stage projection is an exact-match lookup in the table of eight stages. For the
  key \<open>Candidate Interview\<close> the index is 1, the first row is marked completed, the
  second active and the other six neither. A key of the table is found at an index that
  holds it. For any string that is not a key of the table the index is \<open>-1\<close> and every
  row carries the bare class; the function is total, so nothing is raised.
\<close>

theorem stage_projection:
  "length APPLICATION_STAGES = 8
   \<and> currentIndex (Some ''Candidate Interview'') = 1
   \<and> map className (verticalTimeline (renderVerticalTimeline (Some ''Candidate Interview'') s))
       = [''timeline-row completed'', ''timeline-row active'', ''timeline-row'',
          ''timeline-row'', ''timeline-row'', ''timeline-row'', ''timeline-row'',
          ''timeline-row'']
   \<and> (\<forall>st. st \<in> set (map key APPLICATION_STAGES) \<longrightarrow>
          0 \<le> currentIndex (Some st)
          \<and> key (APPLICATION_STAGES ! nat (currentIndex (Some st))) = st)
   \<and> (\<forall>st. st \<notin> set (map key APPLICATION_STAGES) \<longrightarrow>
          currentIndex (Some st) = -1
          \<and> (\<forall>r \<in> set (verticalTimeline (renderVerticalTimeline (Some st) s)).
                className r = ''timeline-row''))"
proof (intro conjI allI impI ballI)
  show "length APPLICATION_STAGES = 8" by (simp add: APPLICATION_STAGES_def)
  show "currentIndex (Some ''Candidate Interview'') = 1"
    by (simp add: currentIndex_def APPLICATION_STAGES_def)
  show "map className (verticalTimeline (renderVerticalTimeline (Some ''Candidate Interview'') s))
       = [''timeline-row completed'', ''timeline-row active'', ''timeline-row'',
          ''timeline-row'', ''timeline-row'', ''timeline-row'', ''timeline-row'',
          ''timeline-row'']"
    by (simp add: renderVerticalTimeline_def timeline_rows_def timeline_row_of_def
          currentIndex_def APPLICATION_STAGES_def enumerate_eq_zip upt_rec)
next
  fix st assume m: "st \<in> set (map key APPLICATION_STAGES)"
  then have ne: "st \<noteq> []" by (auto simp: APPLICATION_STAGES_def)
  from m have "\<exists>x \<in> set APPLICATION_STAGES. key x = st" by auto
  from findIndex_some [of APPLICATION_STAGES "\<lambda>x. key x = st", OF this] ne
  show "0 \<le> currentIndex (Some st)"
    and "key (APPLICATION_STAGES ! nat (currentIndex (Some st))) = st"
    by (simp_all add: currentIndex_def)
next
  fix st assume m: "st \<notin> set (map key APPLICATION_STAGES)"
  then have "\<forall>x \<in> set APPLICATION_STAGES. \<not> key x = st" by auto
  then have f: "findIndex (\<lambda>x. key x = st) APPLICATION_STAGES = -1" by (rule findIndex_none)
  then show c: "currentIndex (Some st) = -1" by (simp add: currentIndex_def)
  fix r assume "r \<in> set (verticalTimeline (renderVerticalTimeline (Some st) s))"
  then obtain p where "r = timeline_row_of (language s) (-1) p"
    by (auto simp: renderVerticalTimeline_def timeline_rows_def c)
  then show "className r = ''timeline-row''"
    by (cases p) (simp add: timeline_row_of_def)
qed

theorem stage_projection_witness:
  "''Hired'' \<notin> set (map key APPLICATION_STAGES)
   \<and> currentIndex (Some ''Hired'') = -1
   \<and> map className (verticalTimeline (renderVerticalTimeline (Some ''Hired'') signed_in))
       = replicate 8 ''timeline-row''
   \<and> ''Training Required'' \<in> set (map key APPLICATION_STAGES)
   \<and> currentIndex (Some ''Training Required'') = 5"
proof -
  have a: "''Hired'' \<notin> set (map key APPLICATION_STAGES)"
    by (simp add: APPLICATION_STAGES_def)
  have b: "''Training Required'' \<in> set (map key APPLICATION_STAGES)"
    by (simp add: APPLICATION_STAGES_def)
  have c: "map className (verticalTimeline (renderVerticalTimeline (Some ''Hired'') signed_in))
       = replicate 8 ''timeline-row''"
    by code_simp
  have d: "currentIndex (Some ''Training Required'') = 5" by code_simp
  from stage_projection [of signed_in] a b c d show ?thesis by simp
qed

text \<open>
  C9. In every reachable state \<open>isConnecting\<close> and \<open>isConnected\<close> are not both set.
  More than that: from any state in which they are not both set, neither a direct call of
  \<open>connect\<close> nor any event (sign-in, sign-out, token, socket open, message, error,
  close, timer, the page's controls) leads to a state in which they are.
\<close>

theorem flags_exclusive:
  "(reachable s \<longrightarrow> \<not> (isConnecting s \<and> isConnected s))
   \<and> (\<not> (isConnecting s \<and> isConnected s) \<longrightarrow>
        \<not> (isConnecting (connect s) \<and> isConnected (connect s))
        \<and> (\<forall>e s'. step e s = Some s' \<longrightarrow> \<not> (isConnecting s' \<and> isConnected s')))"
proof (intro conjI impI allI)
  assume "reachable s"
  then have "settled s" by (rule reachable_settled)
  then show "\<not> (isConnecting s \<and> isConnected s)" by (simp add: settled_def)
next
  assume "\<not> (isConnecting s \<and> isConnected s)"
  then show "\<not> (isConnecting (connect s) \<and> isConnected (connect s))"
    by (rule connect_session)
next
  fix e s'
  assume "\<not> (isConnecting s \<and> isConnected s)" and st: "step e s = Some s'"
  then have "exclusive s" by (simp add: exclusive_def)
  then have "exclusive s'" using st by (rule exclusive_step)
  then show "\<not> (isConnecting s' \<and> isConnected s')" by (simp add: exclusive_def)
qed

theorem flags_exclusive_witness:
  "isConnecting signed_in \<and> \<not> isConnected signed_in
   \<and> isConnected authenticating \<and> \<not> isConnecting authenticating
   \<and> step (SocketOpens 0) (after [TokenResolves (Some ''tok'')] signed_in) = Some authenticating"
proof -
  have a: "isConnecting signed_in" "isConnected authenticating" by code_simp+
  have b: "step (SocketOpens 0) (after [TokenResolves (Some ''tok'')] signed_in)
             = Some authenticating"
    by code_simp
  from a b flags_exclusive [of signed_in] flags_exclusive [of authenticating]
    reachable_signed_in reachable_authenticating
  show ?thesis by simp
qed

text \<open>
  C10. \<open>sendMessage\<close> called with no content, while the input field is empty or holds
  only white space, returns the state it was given: no envelope is sent, and the message
  log, the input field and the quick actions are as before, whatever the connection state.
\<close>

theorem blank_input_sends_nothing:
  "falsy c \<Longrightarrow> \<forall>x \<in> set (messageInput s). is_whitespace x \<Longrightarrow> sendMessage c s = Returned s"
  by (simp add: sendMessage_def trim_blank)

theorem blank_input_sends_nothing_witness:
  "isConnected ready
   \<and> trim [CHR 0x20, CHR 0x09, CHR 0x0A] = []
   \<and> sendMessage None (ready\<lparr>messageInput := [CHR 0x20, CHR 0x09, CHR 0x0A]\<rparr>)
       = Returned (ready\<lparr>messageInput := [CHR 0x20, CHR 0x09, CHR 0x0A]\<rparr>)"
proof -
  let ?s = "ready\<lparr>messageInput := [CHR 0x20, CHR 0x09, CHR 0x0A]\<rparr>"
  have a: "\<forall>x \<in> set (messageInput ?s). is_whitespace x"
    by (simp add: is_whitespace_def)
  have b: "isConnected ready" by code_simp
  have c: "trim [CHR 0x20, CHR 0x09, CHR 0x0A] = []" by code_simp
  from blank_input_sends_nothing [of None ?s, OF _ a] b c show ?thesis by simp
qed

end
